theory Spec2Isabelle
  imports Complex_Main
begin

section \<open>The tape of the reverse-mode differentiation engine (ad/tape.go)\<close>

text \<open>
  A place is a Go pointer \<^verbatim>\<open>*float64\<close>. Pointers are compared by identity only, so a
  pointer is modelled by the address of the cell it designates: \<open>Ext n\<close> is a cell of
  caller-owned memory (an element of the parameter slice, a local variable), \<open>Val i\<close>
  is the cell \<^verbatim>\<open>&tape.values[i]\<close> handed out by \<^verbatim>\<open>Value\<close>.

  Numbers are \<^verbatim>\<open>float64\<close> in the source and \<open>real\<close> here: rounding, infinities and NaN
  are outside the model. Indices and lengths are Go \<^verbatim>\<open>int\<close>s that never go negative on
  the paths modelled; they are \<open>nat\<close>.
\<close>

datatype addr = Ext nat | Val nat

text \<open>A slice \<^verbatim>\<open>[]float64\<close>: the address of its first element and its length.\<close>

datatype slice = Slice addr nat

fun offset :: "addr \<Rightarrow> nat \<Rightarrow> addr" where
  "offset (Ext b) i = Ext (b + i)"
| "offset (Val b) i = Val (b + i)"

fun len :: "slice \<Rightarrow> nat" where
  "len (Slice b k) = k"

fun elems :: "slice \<Rightarrow> addr list" where
  "elems (Slice b k) = map (offset b) [0..<k]"

text \<open>Every Go panic is a value; the state reached when it is raised is kept with it.\<close>

datatype error = IndexOutOfRange | BadOpcode nat | BadType | NotAnElemental | ReflectCall

text \<open>Record types (the \<^verbatim>\<open>iota\<close> constants \<^verbatim>\<open>typDummy\<close> ... \<^verbatim>\<open>typCall\<close>).\<close>

datatype rtype = typDummy | typAssignment | typArithmetic | typElemental | typCall

text \<open>Arithmetic opcodes (the \<^verbatim>\<open>iota\<close> constants \<^verbatim>\<open>OpNeg\<close> ... \<^verbatim>\<open>OpDiv\<close>).\<close>

definition OpNeg :: nat where [simp]: "OpNeg = 0"
definition OpAdd :: nat where [simp]: "OpAdd = 1"
definition OpSub :: nat where [simp]: "OpSub = 2"
definition OpMul :: nat where [simp]: "OpMul = 3"
definition OpDiv :: nat where [simp]: "OpDiv = 4"

text \<open>
  \<^verbatim>\<open>type record struct { typ, op int; p, v int }\<close>. The field names carry the prefix
  \<open>r_\<close>, those of \<^verbatim>\<open>counters\<close> the prefix \<open>c_\<close>, those of \<^verbatim>\<open>elemental\<close> the prefix \<open>e_\<close>:
  one-letter selectors would capture the variables of every later statement.
\<close>

record rcd =
  r_typ :: rtype
  r_op :: nat
  r_p :: nat
  r_v :: nat

text \<open>
  A gradient function \<^verbatim>\<open>func(value float64, params ...float64) []float64\<close>; it may
  panic (the gradient of the logarithm reads \<^verbatim>\<open>params[0]\<close>).
\<close>

type_synonym gradient = "real \<Rightarrow> real list \<Rightarrow> error + real list"

record elemental =
  e_n :: nat
  e_g :: gradient

record counters =
  c_n :: nat
  c_r :: nat
  c_p :: nat
  c_v :: nat
  c_e :: nat

text \<open>
  The global state of package \<^verbatim>\<open>ad\<close>: the seven fields of \<^verbatim>\<open>oneGlobalTape\<close>
  (\<open>values'\<close> is the field \<^verbatim>\<open>values\<close>), the elemental registry
  \<^verbatim>\<open>var elementals map[uintptr]ElementalGradientFunc\<close> (\<open>registry\<close>, keyed by the code
  pointer of the function), and \<open>heap\<close>, the memory the places point into.

  \<^verbatim>\<open>Value\<close> returns \<^verbatim>\<open>&tape.values[len-1]\<close>, a pointer into the backing array of that
  moment; a later \<^verbatim>\<open>append\<close> may move the slice to a new array. The indexed view
  \<open>values'\<close> and the pointed-to cells \<open>heap (Val i)\<close> are therefore two stores. The
  source reads by index only slots it wrote by \<^verbatim>\<open>append\<close> or by index, and through a
  pointer only cells it wrote through a pointer or initialised in \<^verbatim>\<open>Value\<close>.
\<close>

record state =
  records :: "rcd list"
  places :: "addr list"
  values' :: "real list"
  elementals :: "elemental list"
  cstack :: "counters list"
  adj :: "nat list"
  adv :: "real list"
  registry :: "nat \<Rightarrow> gradient option"
  heap :: "addr \<Rightarrow> real"

datatype 'a result = Ok 'a state | Panic error state

fun bind :: "'a result \<Rightarrow> ('a \<Rightarrow> state \<Rightarrow> 'b result) \<Rightarrow> 'b result" where
  "bind (Ok x s) f = f x s"
| "bind (Panic e s) f = Panic e s"

text \<open>An indexed read \<^verbatim>\<open>xs[i]\<close>: out of range it panics.\<close>

definition index :: "'a list \<Rightarrow> nat \<Rightarrow> state \<Rightarrow> 'a result" where
  "index xs i s = (if i < length xs then Ok (xs ! i) s else Panic IndexOutOfRange s)"

text \<open>A counted loop \<^verbatim>\<open>for i := 0; i != k; i++\<close> whose body may panic.\<close>

primrec forloop :: "nat list \<Rightarrow> (nat \<Rightarrow> state \<Rightarrow> unit result) \<Rightarrow> state \<Rightarrow> unit result" where
  "forloop [] body s = Ok () s"
| "forloop (i # is) body s = bind (body i s) (\<lambda>_. forloop is body)"

subsection \<open>Forward pass\<close>

text \<open>\<^verbatim>\<open>func init()\<close>: the tape starts with one dummy record.\<close>

definition init :: "(nat \<Rightarrow> gradient option) \<Rightarrow> (addr \<Rightarrow> real) \<Rightarrow> state" where
  "init reg h =
     \<lparr>records = [\<lparr>r_typ = typDummy, r_op = 0, r_p = 0, r_v = 0\<rparr>], places = [],
      values' = [], elementals = [], cstack = [], adj = [], adv = [],
      registry = reg, heap = h\<rparr>"

definition push :: "nat \<Rightarrow> state \<Rightarrow> state" where
  "push k s =
     s\<lparr>cstack := cstack s @
        [\<lparr>c_n = k, c_r = length (records s), c_p = length (places s),
          c_v = length (values' s), c_e = length (elementals s)\<rparr>]\<rparr>"

definition register :: "slice \<Rightarrow> state \<Rightarrow> state" where
  "register x s = s\<lparr>places := places s @ elems x\<rparr>"

definition Value :: "real \<Rightarrow> state \<Rightarrow> addr \<times> state" where
  "Value x s =
     (Val (length (values' s)),
      s\<lparr>values' := values' s @ [x], heap := (heap s)(Val (length (values' s)) := x)\<rparr>)"

definition Setup :: "slice \<Rightarrow> state \<Rightarrow> state" where
  "Setup x s =
     (let s1 = push (len x) s;
          (p0, s2) = Value 0 s1
      in register x (s2\<lparr>places := places s2 @ [p0]\<rparr>))"

definition Return :: "addr \<Rightarrow> state \<Rightarrow> real result" where
  "Return px s =
     (if cstack s = [] then Panic IndexOutOfRange s
      else if c_p (last (cstack s)) < length (places s)
      then Ok (heap s px) (s\<lparr>places := (places s)[c_p (last (cstack s)) := px]\<rparr>)
      else Panic IndexOutOfRange s)"

text \<open>
  \<^verbatim>\<open>Arithmetic\<close> appends the places and the record before it runs the operation, so a
  panic of the \<^verbatim>\<open>switch\<close> (a missing operand, a bad opcode) leaves them on the tape.
\<close>

definition Arithmetic :: "nat \<Rightarrow> addr list \<Rightarrow> state \<Rightarrow> addr result" where
  "Arithmetic opc px s =
     (let (pr, s1) = Value 0 s;
          r = \<lparr>r_typ = typArithmetic, r_op = opc, r_p = length (places s1), r_v = 0\<rparr>;
          s2 = s1\<lparr>places := places s1 @ [pr] @ px, records := records s1 @ [r]\<rparr>;
          h = heap s2
      in if opc = OpNeg then
           (if length px < 1 then Panic IndexOutOfRange s2
            else Ok pr (s2\<lparr>heap := h(pr := - h (px ! 0))\<rparr>))
         else if opc = OpAdd then
           (if length px < 2 then Panic IndexOutOfRange s2
            else Ok pr (s2\<lparr>heap := h(pr := h (px ! 0) + h (px ! 1))\<rparr>))
         else if opc = OpSub then
           (if length px < 2 then Panic IndexOutOfRange s2
            else Ok pr (s2\<lparr>heap := h(pr := h (px ! 0) - h (px ! 1))\<rparr>))
         else if opc = OpMul then
           (if length px < 2 then Panic IndexOutOfRange s2
            else Ok pr (s2\<lparr>heap := h(pr := h (px ! 0) * h (px ! 1))\<rparr>))
         else if opc = OpDiv then
           (if length px < 2 then Panic IndexOutOfRange s2
            else Ok pr (s2\<lparr>heap := h(pr := h (px ! 0) / h (px ! 1))\<rparr>))
         else Panic (BadOpcode opc) s2)"

text \<open>
  \<^verbatim>\<open>ParallelAssignment\<close>: the first loop logs the targets and saves their values, the
  second logs the sources and saves theirs; the run loop then writes target \<open>i\<close> from
  the saved source value at \<^verbatim>\<open>len(tape.values)-len(p)+i\<close>, in order.
\<close>

definition assign_run :: "'c list \<Rightarrow> real list \<Rightarrow> ('c \<Rightarrow> real) \<Rightarrow> 'c \<Rightarrow> real" where
  "assign_run p vs h =
     foldl (\<lambda>h' i. h'(p ! i := vs ! (length vs - length p + i))) h [0..<length p]"

definition ParallelAssignment :: "addr list \<Rightarrow> state \<Rightarrow> state" where
  "ParallelAssignment ppx s =
     (let p = take (length ppx div 2) ppx;
          px = drop (length ppx div 2) ppx;
          r = \<lparr>r_typ = typAssignment, r_op = length p, r_p = length (places s),
               r_v = length (values' s)\<rparr>;
          s1 = s\<lparr>places := places s @ p, values' := values' s @ map (heap s) p\<rparr>;
          s2 = s1\<lparr>places := places s1 @ px, values' := values' s1 @ map (heap s1) px\<rparr>;
          s3 = s2\<lparr>records := records s2 @ [r]\<rparr>
      in s3\<lparr>heap := assign_run p (values' s3) (heap s3)\<rparr>)"

definition Assignment :: "addr \<Rightarrow> addr \<Rightarrow> state \<Rightarrow> state" where
  "Assignment p px s =
     (let r = \<lparr>r_typ = typAssignment, r_op = 1, r_p = length (places s),
               r_v = length (values' s)\<rparr>
      in s\<lparr>places := places s @ [p, px], values' := values' s @ [heap s p],
           records := records s @ [r], heap := (heap s)(p := heap s px)\<rparr>)"

text \<open>
  An elemental function \<^verbatim>\<open>f interface{}\<close>: its code pointer (\<^verbatim>\<open>fkey\<close>) and its body, by
  the cases of the type switch in \<^verbatim>\<open>Elemental\<close>: \<^verbatim>\<open>func(float64) float64\<close>,
  \<^verbatim>\<open>func(float64, float64) float64\<close>, and the functions called through reflection,
  of a fixed number of arguments or variadic.
\<close>

datatype body =
    Func1 "real \<Rightarrow> real"
  | Func2 "real \<Rightarrow> real \<Rightarrow> real"
  | FuncN nat "real list \<Rightarrow> real"
  | FuncV "real list \<Rightarrow> real"

datatype func = Func nat body

fun fkey :: "func \<Rightarrow> nat" where
  "fkey (Func k b) = k"

definition RegisterElemental :: "func \<Rightarrow> gradient \<Rightarrow> state \<Rightarrow> state" where
  "RegisterElemental f g s = s\<lparr>registry := (registry s)(fkey f \<mapsto> g)\<rparr>"

definition ElementalGradient :: "func \<Rightarrow> state \<Rightarrow> gradient option" where
  "ElementalGradient f s = registry s (fkey f)"

fun call_body :: "body \<Rightarrow> real list \<Rightarrow> error + real" where
  "call_body (Func1 f) xs = (case xs of [] \<Rightarrow> Inl IndexOutOfRange | x # _ \<Rightarrow> Inr (f x))"
| "call_body (Func2 f) xs =
     (case xs of x # y # _ \<Rightarrow> Inr (f x y) | _ \<Rightarrow> Inl IndexOutOfRange)"
| "call_body (FuncN k f) xs = (if length xs = k then Inr (f xs) else Inl ReflectCall)"
| "call_body (FuncV f) xs = Inr (f xs)"

definition Elemental :: "func \<Rightarrow> addr list \<Rightarrow> state \<Rightarrow> addr result" where
  "Elemental f px s =
     (let (pr, s1) = Value 0 s
      in case ElementalGradient f s1 of
           None \<Rightarrow> Panic NotAnElemental s1
         | Some g \<Rightarrow>
             (let r = \<lparr>r_typ = typElemental, r_op = length (elementals s1),
                       r_p = length (places s1), r_v = length (values' s1)\<rparr>;
                  e = \<lparr>e_n = length px, e_g = g\<rparr>;
                  s2 = s1\<lparr>places := places s1 @ [pr] @ px,
                          values' := values' s1 @ map (heap s1) px,
                          elementals := elementals s1 @ [e],
                          records := records s1 @ [r]\<rparr>
              in case f of Func k b \<Rightarrow>
                   (case call_body b (map (heap s2) px) of
                      Inl err \<Rightarrow> Panic err s2
                    | Inr y \<Rightarrow> Ok pr (s2\<lparr>heap := (heap s2)(pr := y)\<rparr>))))"

subsection \<open>Calling differentiated functions\<close>

definition Called :: "state \<Rightarrow> bool result" where
  "Called s =
     (if records s = [] then Panic IndexOutOfRange s
      else Ok (r_typ (last (records s)) = typCall) s)"




definition Enter :: "addr list \<Rightarrow> state \<Rightarrow> unit result" where
  "Enter px s =
     (if length (places s) < length px then Panic IndexOutOfRange s
      else Ok () (ParallelAssignment
             (px @ take (length px) (drop (length (places s) - length px) (places s))) s))"

subsection \<open>Backward pass\<close>

text \<open>
  \<^verbatim>\<open>Pop\<close> truncates four arrays and the counter stack, one statement after the other. A
  Go slice expression \<^verbatim>\<open>a[:k]\<close> panics when \<open>k\<close> exceeds the capacity; the model has
  no capacity and panics when \<open>k\<close> exceeds the length.
\<close>

definition Pop :: "state \<Rightarrow> unit result" where
  "Pop s =
     (if cstack s = [] then Panic IndexOutOfRange s
      else
        (let c = last (cstack s) in
         if length (records s) < c_r c then Panic IndexOutOfRange s
         else
           (let s1 = s\<lparr>records := take (c_r c) (records s)\<rparr> in
            if length (places s1) < c_p c then Panic IndexOutOfRange s1
            else
              (let s2 = s1\<lparr>places := take (c_p c) (places s1)\<rparr> in
               if length (values' s2) < c_v c then Panic IndexOutOfRange s2
               else
                 (let s3 = s2\<lparr>values' := take (c_v c) (values' s2)\<rparr> in
                  if length (elementals s3) < c_e c then Panic IndexOutOfRange s3
                  else Ok () (s3\<lparr>elementals := take (c_e c) (elementals s3),
                                 cstack := butlast (cstack s3)\<rparr>))))))"

text \<open>
  The adjoint index. The local map \<^verbatim>\<open>adjoints map[*float64]int\<close> is the first
  component; one step is one turn of the loop over the places of the frame.
\<close>

fun index_step ::
  "addr list \<Rightarrow> (addr \<rightharpoonup> nat) \<times> nat list \<times> real list \<Rightarrow> nat \<Rightarrow>
   (addr \<rightharpoonup> nat) \<times> nat list \<times> real list" where
  "index_step ps (m, aj, av) i =
     (case m (ps ! i) of
        Some j \<Rightarrow> (m, aj[i := j], av)
      | None \<Rightarrow> (m(ps ! i \<mapsto> length av), aj[i := length av], av @ [0]))"

definition build_index :: "state \<Rightarrow> unit result" where
  "build_index s =
     (let c = last (cstack s);
          s1 = (if length (adj s) < length (places s)
                then s\<lparr>adj := adj s @ replicate (length (places s) - length (adj s)) 0\<rparr>
                else s)
      in if length (places s1) < c_p c then Panic IndexOutOfRange s1
         else
           (case foldl (index_step (places s1)) (Map.empty, adj s1, adv s1)
                   [c_p c..<length (places s1)] of
              (m, aj, av) \<Rightarrow> Ok () (s1\<lparr>adj := aj, adv := av\<rparr>)))"

text \<open>The reads and writes \<^verbatim>\<open>adv[adj[i]]\<close>, \<^verbatim>\<open>adv[adj[i]] = x\<close>, \<^verbatim>\<open>adv[adj[i]] += x\<close>, \<^verbatim>\<open>*places[i]\<close>.\<close>

definition adjoint :: "nat \<Rightarrow> state \<Rightarrow> real result" where
  "adjoint i s = bind (index (adj s) i s) (\<lambda>j s. index (adv s) j s)"

definition set_adjoint :: "nat \<Rightarrow> real \<Rightarrow> state \<Rightarrow> unit result" where
  "set_adjoint i x s =
     bind (index (adj s) i s) (\<lambda>j s.
       if j < length (adv s) then Ok () (s\<lparr>adv := (adv s)[j := x]\<rparr>)
       else Panic IndexOutOfRange s)"

definition add_adjoint :: "nat \<Rightarrow> real \<Rightarrow> state \<Rightarrow> unit result" where
  "add_adjoint i x s =
     bind (index (adj s) i s) (\<lambda>j s.
       if j < length (adv s) then Ok () (s\<lparr>adv := (adv s)[j := adv s ! j + x]\<rparr>)
       else Panic IndexOutOfRange s)"

definition deref :: "nat \<Rightarrow> state \<Rightarrow> real result" where
  "deref i s = bind (index (places s) i s) (\<lambda>a s. Ok (heap s a) s)"

text \<open>\<^verbatim>\<open>*places[i] = values[j]\<close>.\<close>

definition restore :: "nat \<Rightarrow> nat \<Rightarrow> state \<Rightarrow> unit result" where
  "restore i j s =
     bind (index (places s) i s) (\<lambda>a s.
       bind (index (values' s) j s) (\<lambda>x s. Ok () (s\<lparr>heap := (heap s)(a := x)\<rparr>)))"

text \<open>One turn of the backward loop, on the record \<open>r\<close>.\<close>

definition back_assignment :: "rcd \<Rightarrow> state \<Rightarrow> unit result" where
  "back_assignment r s =
     (if r_op r = 1 then
        bind (restore (r_p r) (r_v r) s) (\<lambda>_ s.
        bind (adjoint (r_p r) s) (\<lambda>a s.
        bind (set_adjoint (r_p r) 0 s) (\<lambda>_ s.
        add_adjoint (r_p r + 1) a s)))
      else
        bind (forloop [0..<r_op r] (\<lambda>i. restore (r_p r + i) (r_v r + i)) s) (\<lambda>_ s.
        if length (values' s) < r_v r + r_op r then Panic IndexOutOfRange s
        else
          bind (forloop [0..<r_op r] (\<lambda>i s.
                  bind (adjoint (r_p r + i) s) (\<lambda>a s.
                    Ok () (s\<lparr>values' := (values' s)[r_v r + i := a]\<rparr>))) s) (\<lambda>_ s.
          bind (forloop [0..<r_op r] (\<lambda>i. set_adjoint (r_p r + i) 0) s) (\<lambda>_ s.
          forloop [0..<r_op r] (\<lambda>i s.
            bind (index (values' s) (r_v r + i) s) (\<lambda>a.
              add_adjoint (r_p r + r_op r + i) a)) s))))"

definition back_arithmetic :: "rcd \<Rightarrow> state \<Rightarrow> unit result" where
  "back_arithmetic r s =
     bind (adjoint (r_p r) s) (\<lambda>a s.
       if r_op r = OpNeg then add_adjoint (r_p r + 1) (- a) s
       else if r_op r = OpAdd then
         bind (add_adjoint (r_p r + 1) a s) (\<lambda>_. add_adjoint (r_p r + 2) a)
       else if r_op r = OpSub then
         bind (add_adjoint (r_p r + 1) a s) (\<lambda>_. add_adjoint (r_p r + 2) (- a))
       else if r_op r = OpMul then
         bind (deref (r_p r + 2) s) (\<lambda>y s.
         bind (deref (r_p r + 1) s) (\<lambda>x s.
         bind (add_adjoint (r_p r + 1) (a * y) s) (\<lambda>_.
         add_adjoint (r_p r + 2) (a * x))))
       else if r_op r = OpDiv then
         bind (deref (r_p r + 2) s) (\<lambda>y s.
         bind (deref (r_p r) s) (\<lambda>z s.
         bind (add_adjoint (r_p r + 1) (a / y) s) (\<lambda>_.
         add_adjoint (r_p r + 2) (- (a / y) * z))))
       else Panic (BadOpcode (r_op r)) s)"

definition back_elemental :: "rcd \<Rightarrow> state \<Rightarrow> unit result" where
  "back_elemental r s =
     bind (adjoint (r_p r) s) (\<lambda>a s.
     bind (index (elementals s) (r_op r) s) (\<lambda>e s.
     bind (deref (r_p r) s) (\<lambda>z s.
       if length (values' s) < r_v r + e_n e then Panic IndexOutOfRange s
       else
         (case e_g e z (take (e_n e) (drop (r_v r) (values' s))) of
            Inl err \<Rightarrow> Panic err s
          | Inr d \<Rightarrow>
              forloop [0..<e_n e] (\<lambda>i s.
                bind (index d i s) (\<lambda>di. add_adjoint (r_p r + 1 + i) (a * di))) s))))"

fun back_step :: "rcd \<Rightarrow> state \<Rightarrow> unit result" where
  "back_step r s =
     (case r_typ r of
        typDummy \<Rightarrow> Ok () s
      | typAssignment \<Rightarrow> back_assignment r s
      | typArithmetic \<Rightarrow> back_arithmetic r s
      | typElemental \<Rightarrow> back_elemental r s
      | typCall \<Rightarrow> Panic BadType s)"

text \<open>
  The loop \<^verbatim>\<open>for ir := len(tape.records); ir != bottom; { ir--; ... }\<close>, by recursion on
  \<open>ir\<close>. Below zero the read \<^verbatim>\<open>tape.records[ir]\<close> panics.
\<close>

primrec walk :: "nat \<Rightarrow> nat \<Rightarrow> state \<Rightarrow> unit result" where
  "walk bottom 0 s = (if bottom = 0 then Ok () s else Panic IndexOutOfRange s)"
| "walk bottom (Suc ir) s =
     (if Suc ir = bottom then Ok () s
      else bind (bind (index (records s) ir s) back_step) (\<lambda>_. walk bottom ir))"

definition backward :: "state \<Rightarrow> unit result" where
  "backward s =
     (if cstack s = [] then Panic IndexOutOfRange s
      else
        bind (build_index s) (\<lambda>_ s.
        bind (set_adjoint 0 1 s) (\<lambda>_ s.
        walk (c_r (last (cstack s))) (length (records s)) s)))"

primrec collect :: "nat list \<Rightarrow> (nat \<Rightarrow> state \<Rightarrow> real result) \<Rightarrow> state \<Rightarrow> real list result" where
  "collect [] f s = Ok [] s"
| "collect (i # is) f s =
     bind (f i s) (\<lambda>x s. bind (collect is f s) (\<lambda>xs. Ok (x # xs)))"

definition partials :: "state \<Rightarrow> real list result" where
  "partials s =
     (if cstack s = [] then Panic IndexOutOfRange s
      else collect [0..<c_n (last (cstack s))]
             (\<lambda>i. adjoint (c_p (last (cstack s)) + i + 1)) s)"

definition Gradient :: "state \<Rightarrow> real list result" where
  "Gradient s =
     bind (backward s) (\<lambda>_ s.
     bind (partials s) (\<lambda>g s.
     bind (Pop s) (\<lambda>_. Ok g)))"

section \<open>The elemental registry (package ad, elementals)\<close>

text \<open>
  The gradients registered by \<^verbatim>\<open>func init()\<close> for the functions of package
  \<^verbatim>\<open>math\<close>. \<^verbatim>\<open>math.Log\<close>, \<^verbatim>\<open>math.Cos\<close> and \<^verbatim>\<open>math.Sin\<close> are \<open>ln\<close>, \<open>cos\<close> and \<open>sin\<close> on
  the reals.
\<close>

definition sqrt_grad :: gradient where
  "sqrt_grad val params = Inr [0.5 / val]"

definition exp_grad :: gradient where
  "exp_grad val params = Inr [val]"

definition log_grad :: gradient where
  "log_grad val params =
     (case params of [] \<Rightarrow> Inl IndexOutOfRange | a # _ \<Rightarrow> Inr [1 / a])"

definition pow_grad :: gradient where
  "pow_grad val params =
     (case params of [] \<Rightarrow> Inl IndexOutOfRange | a # _ \<Rightarrow> Inr [val * ln a])"

definition sin_grad :: gradient where
  "sin_grad val params =
     (case params of [] \<Rightarrow> Inl IndexOutOfRange | a # _ \<Rightarrow> Inr [cos a])"

definition cos_grad :: gradient where
  "cos_grad val params =
     (case params of [] \<Rightarrow> Inl IndexOutOfRange | a # _ \<Rightarrow> Inr [- sin a])"

definition tan_grad :: gradient where
  "tan_grad val params = Inr [1 + val * val]"

text \<open>
  The functions of package \<^verbatim>\<open>math\<close>. Their code pointers are seven distinct numbers;
  which ones is immaterial.
\<close>

definition math_Sqrt :: func where "math_Sqrt = Func 0 (Func1 sqrt)"
definition math_Exp :: func where "math_Exp = Func 1 (Func1 exp)"
definition math_Log :: func where "math_Log = Func 2 (Func1 ln)"
definition math_Pow :: func where "math_Pow = Func 3 (Func2 (powr))"
definition math_Sin :: func where "math_Sin = Func 4 (Func1 sin)"
definition math_Cos :: func where "math_Cos = Func 5 (Func1 cos)"
definition math_Tan :: func where "math_Tan = Func 6 (Func1 tan)"

definition init_elementals :: "state \<Rightarrow> state" where
  "init_elementals s =
     (RegisterElemental math_Tan tan_grad \<circ>
      RegisterElemental math_Cos cos_grad \<circ>
      RegisterElemental math_Sin sin_grad \<circ>
      RegisterElemental math_Pow pow_grad \<circ>
      RegisterElemental math_Log log_grad \<circ>
      RegisterElemental math_Exp exp_grad \<circ>
      RegisterElemental math_Sqrt sqrt_grad) (s\<lparr>registry := Map.empty\<rparr>)"

section \<open>Forward sequences\<close>

text \<open>
  A differentiated function is, on one input, a sequence of calls of the recorder. A
  call names its operand cells: \<open>PExt n\<close> is the caller-owned cell \<open>Ext n\<close>, and
  \<open>PRes j\<close> is the cell returned by the \<open>j\<close>-th of the earlier calls that return one
  (\<^verbatim>\<open>Value\<close>, \<^verbatim>\<open>Arithmetic\<close>, \<^verbatim>\<open>Elemental\<close>). A name \<open>PRes j\<close> with no such call is not a
  Go program; running it yields \<open>Unbound\<close>.
\<close>

datatype operand = PExt nat | PRes nat

datatype call =
    CValue real
  | CArithmetic nat "operand list"
  | CAssignment operand operand
  | CParallelAssignment "operand list"
  | CElemental func "operand list"
  | CReturn operand

fun bound :: "nat \<Rightarrow> operand \<Rightarrow> bool" where
  "bound k (PExt n) = True"
| "bound k (PRes j) = (j < k)"

fun cell :: "addr list \<Rightarrow> operand \<Rightarrow> addr" where
  "cell env (PExt n) = Ext n"
| "cell env (PRes j) = env ! j"

fun operands :: "call \<Rightarrow> operand list" where
  "operands (CValue x) = []"
| "operands (CArithmetic opc xs) = xs"
| "operands (CAssignment x y) = [x, y]"
| "operands (CParallelAssignment xs) = xs"
| "operands (CElemental f xs) = xs"
| "operands (CReturn x) = [x]"

fun exec :: "call \<Rightarrow> addr list \<Rightarrow> state \<Rightarrow> addr list result" where
  "exec (CValue x) env s = (case Value x s of (a, s1) \<Rightarrow> Ok (env @ [a]) s1)"
| "exec (CArithmetic opc xs) env s =
     bind (Arithmetic opc (map (cell env) xs) s) (\<lambda>a. Ok (env @ [a]))"
| "exec (CAssignment x y) env s = Ok env (Assignment (cell env x) (cell env y) s)"
| "exec (CParallelAssignment xs) env s = Ok env (ParallelAssignment (map (cell env) xs) s)"
| "exec (CElemental f xs) env s =
     bind (Elemental f (map (cell env) xs) s) (\<lambda>a. Ok (env @ [a]))"
| "exec (CReturn x) env s = bind (Return (cell env x) s) (\<lambda>_. Ok env)"

datatype trace_error = Unbound

fun run :: "call list \<Rightarrow> addr list \<Rightarrow> state \<Rightarrow> trace_error + addr list result" where
  "run [] env s = Inr (Ok env s)"
| "run (c # cs) env s =
     (if list_all (bound (length env)) (operands c) then
        (case exec c env s of
           Ok env' s' \<Rightarrow> run cs env' s'
         | Panic e s' \<Rightarrow> Inr (Panic e s'))
      else Inl Unbound)"

text \<open>
  \<^verbatim>\<open>ddx\<close> of the tape's tests: \<^verbatim>\<open>Setup(x); f(x); return Gradient()\<close>, and the same with
  \<^verbatim>\<open>Pop()\<close> in place of \<^verbatim>\<open>Gradient()\<close>.
\<close>

definition ddx :: "slice \<Rightarrow> call list \<Rightarrow> state \<Rightarrow> trace_error + real list result" where
  "ddx x f s =
     (case run f [] (Setup x s) of
        Inl u \<Rightarrow> Inl u
      | Inr (Panic e s') \<Rightarrow> Inr (Panic e s')
      | Inr (Ok env s') \<Rightarrow> Inr (Gradient s'))"

definition discard :: "slice \<Rightarrow> call list \<Rightarrow> state \<Rightarrow> trace_error + unit result" where
  "discard x f s =
     (case run f [] (Setup x s) of
        Inl u \<Rightarrow> Inl u
      | Inr (Panic e s') \<Rightarrow> Inr (Panic e s')
      | Inr (Ok env s') \<Rightarrow> Inr (Pop s'))"


section \<open>Definitions used in the statements and proofs\<close>

text \<open>
  \<open>appended_clean s s'\<close>: from \<open>s\<close> to \<open>s'\<close> the record log has only grown, and none of
  the new records is a call marker.
\<close>

definition appended_clean :: "state \<Rightarrow> state \<Rightarrow> bool" where
  "appended_clean s s' \<longleftrightarrow>
     (\<exists>rs. records s' = records s @ rs \<and> (\<forall>r\<in>set rs. r_typ r \<noteq> typCall))"

text \<open>
  \<open>extends s s'\<close>: what the recorder does to the tape between \<^verbatim>\<open>Setup\<close> and \<^verbatim>\<open>Gradient\<close>. The
  logs of records, values and elemental entries grow at the end, the place log does not
  shrink, and the counter stack, the adjoint index, the adjoint buffer and the registry
  are not touched.
\<close>

definition extends :: "state \<Rightarrow> state \<Rightarrow> bool" where
  "extends s s' \<longleftrightarrow>
     cstack s' = cstack s \<and> adj s' = adj s \<and> adv s' = adv s \<and> registry s' = registry s \<and>
     (\<exists>rs. records s' = records s @ rs) \<and>
     (\<exists>vs. values' s' = values' s @ vs) \<and>
     (\<exists>es. elementals s' = elementals s @ es) \<and>
     length (places s) \<le> length (places s')"

text \<open>
  \<open>unchanged s s'\<close>: what the backward loop leaves alone. It writes cells, adjoints and
  slots of the value store, and nothing else.
\<close>

definition unchanged :: "state \<Rightarrow> state \<Rightarrow> bool" where
  "unchanged s s' \<longleftrightarrow>
     records s' = records s \<and> places s' = places s \<and> elementals s' = elementals s \<and>
     cstack s' = cstack s \<and> registry s' = registry s \<and> adj s' = adj s \<and>
     length (values' s') = length (values' s) \<and> length (adv s') = length (adv s)"

text \<open>The final state of an outcome that returns.\<close>

fun final :: "trace_error + 'a result \<Rightarrow> state option" where
  "final (Inr (Ok x s)) = Some s"
| "final (Inr (Panic e s)) = None"
| "final (Inl u) = None"

text \<open>
  The invariant of the loop that builds the adjoint index, after the places \<open>cp, ..., i - 1\<close>
  of the place log \<open>ps\<close>, started with the index \<open>aj0\<close> and the buffer \<open>av0\<close>: the map knows
  exactly the cells seen so far and sends different cells to different slots, all of
  them new and appended as zeros; the index of a place seen is the slot of its cell;
  the index elsewhere is as it was.
\<close>

definition index_inv ::
  "addr list \<Rightarrow> nat \<Rightarrow> nat list \<Rightarrow> real list \<Rightarrow> nat \<Rightarrow>
   (addr \<rightharpoonup> nat) \<times> nat list \<times> real list \<Rightarrow> bool" where
  "index_inv ps cp aj0 av0 i x \<longleftrightarrow>
     (case x of (m, aj, av) \<Rightarrow>
        length aj = length aj0 \<and>
        (\<exists>k. av = av0 @ replicate k 0) \<and>
        (\<forall>a. a \<in> dom m \<longleftrightarrow> (\<exists>j. cp \<le> j \<and> j < i \<and> ps ! j = a)) \<and>
        (\<forall>a j. m a = Some j \<longrightarrow> length av0 \<le> j \<and> j < length av) \<and>
        (\<forall>a b j. m a = Some j \<longrightarrow> m b = Some j \<longrightarrow> a = b) \<and>
        (\<forall>j. cp \<le> j \<and> j < i \<longrightarrow> m (ps ! j) = Some (aj ! j)) \<and>
        (\<forall>j. j < cp \<or> i \<le> j \<longrightarrow> aj ! j = aj0 ! j))"

section \<open>The backward pass on cells\<close>

text \<open>
  What a record means, with the places and saved values it points at written in: the
  cells are of any type \<open>'c\<close> (addresses for the tape, operand names for a forward
  sequence). An assignment carries its targets, its sources and the saved values of
  the targets; an elemental call its gradient, its arity, its result cell, its operand
  cells and the saved values of the operands.
\<close>

datatype 'c ainstr =
    ADummy
  | AAssign "'c list" "'c list" "real list"
  | ANeg 'c 'c
  | ABin nat 'c 'c 'c
  | AElem gradient nat 'c "'c list" "real list"






text \<open>
  \<open>Rel cp s m\<close>: on the places from \<open>cp\<close> on, the adjoint index and buffer of \<open>s\<close> represent
  the map \<open>m\<close> from cells to adjoints. Every such place has a slot in the buffer, two
  places share a slot exactly when they are the same cell, and the slot holds the
  adjoint of the cell.
\<close>

definition Rel :: "nat \<Rightarrow> state \<Rightarrow> (addr \<Rightarrow> real) \<Rightarrow> bool" where
  "Rel cp s m \<longleftrightarrow>
     length (places s) \<le> length (adj s) \<and>
     (\<forall>i. cp \<le> i \<and> i < length (places s) \<longrightarrow>
        adj s ! i < length (adv s) \<and> adv s ! (adj s ! i) = m (places s ! i)) \<and>
     (\<forall>i j. cp \<le> i \<and> i < length (places s) \<and> cp \<le> j \<and> j < length (places s) \<longrightarrow>
        (adj s ! i = adj s ! j \<longleftrightarrow> places s ! i = places s ! j))"





section \<open>Forward sequences on operand names\<close>

text \<open>
  A forward sequence run on names instead of addresses: the cells are the caller-owned
  cells \<open>NExt n\<close>, the cells \<open>NRes j\<close> returned by the calls of the sequence, and the
  cell \<open>NSlot\<close> that \<^verbatim>\<open>Setup\<close> puts into the result slot. The state is the number of cells
  returned so far, the values of the cells, the cell in the result slot, and the meanings
  of the records written so far. A step fails where the recorder panics.
\<close>

datatype name = NExt nat | NRes nat | NSlot


record sym =
  s_k :: nat
  s_heap :: "name \<Rightarrow> real"
  s_ret :: name
  s_log :: "name ainstr list"















section \<open>What the recorder and the backward pass change\<close>

subsection \<open>Outcomes\<close>

lemma walk_same [simp]: "walk b b s = Ok () s"
  by (cases b) simp_all

lemma bind_Ok_iff: "bind m f = Ok y s' \<longleftrightarrow> (\<exists>x s1. m = Ok x s1 \<and> f x s1 = Ok y s')"
  by (cases m) simp_all

lemma index_Ok_iff: "index xs i s = Ok x s' \<longleftrightarrow> i < length xs \<and> x = xs ! i \<and> s' = s"
  by (auto simp: index_def)

subsection \<open>The recorder only appends\<close>

lemma extends_refl [simp]: "extends s s"
  by (simp add: extends_def)

lemma extends_trans: "extends s s1 \<Longrightarrow> extends s1 s2 \<Longrightarrow> extends s s2"
  by (auto simp: extends_def)

lemma Value_extends: "extends s (snd (Value x s))"
  by (simp add: extends_def Value_def)

lemma Arithmetic_extends: "Arithmetic opc px s = Ok a s' \<Longrightarrow> extends s s'"
  by (auto simp: Arithmetic_def Value_def Let_def extends_def split: if_splits)

lemma Assignment_extends: "extends s (Assignment p px s)"
  by (simp add: Assignment_def Let_def extends_def)

lemma ParallelAssignment_extends: "extends s (ParallelAssignment ppx s)"
  by (simp add: ParallelAssignment_def Let_def extends_def)

lemma Elemental_extends: "Elemental f px s = Ok a s' \<Longrightarrow> extends s s'"
  by (auto simp: Elemental_def Value_def Let_def extends_def
      split: option.splits func.splits sum.splits)

lemma Return_extends: "Return px s = Ok y s' \<Longrightarrow> extends s s'"
  by (auto simp: Return_def extends_def split: if_splits)

lemma exec_extends: "exec c env s = Ok env' s' \<Longrightarrow> extends s s'"
proof (cases c)
  case (CValue x)
  then show "exec c env s = Ok env' s' \<Longrightarrow> extends s s'"
    using Value_extends [of s x] by (auto split: prod.splits)
next
  case (CArithmetic opc xs)
  then show "exec c env s = Ok env' s' \<Longrightarrow> extends s s'"
    by (auto simp: bind_Ok_iff dest: Arithmetic_extends)
next
  case (CAssignment x y)
  then show "exec c env s = Ok env' s' \<Longrightarrow> extends s s'"
    using Assignment_extends by auto
next
  case (CParallelAssignment xs)
  then show "exec c env s = Ok env' s' \<Longrightarrow> extends s s'"
    using ParallelAssignment_extends by auto
next
  case (CElemental f xs)
  then show "exec c env s = Ok env' s' \<Longrightarrow> extends s s'"
    by (auto simp: bind_Ok_iff dest: Elemental_extends)
next
  case (CReturn x)
  then show "exec c env s = Ok env' s' \<Longrightarrow> extends s s'"
    by (auto simp: bind_Ok_iff dest: Return_extends)
qed

lemma run_extends: "run f env s = Inr (Ok env' s') \<Longrightarrow> extends s s'"
proof (induction f arbitrary: env s)
  case Nil
  then show ?case by simp
next
  case (Cons c f)
  from Cons.prems obtain env1 s1 where e: "exec c env s = Ok env1 s1"
    and r: "run f env1 s1 = Inr (Ok env' s')"
    by (auto split: if_splits result.splits)
  from exec_extends [OF e] Cons.IH [OF r] show ?case by (rule extends_trans)
qed

subsection \<open>The backward loop leaves the logs alone\<close>

lemma unchanged_refl [simp]: "unchanged s s"
  by (simp add: unchanged_def)

lemma unchanged_trans: "unchanged s s1 \<Longrightarrow> unchanged s1 s2 \<Longrightarrow> unchanged s s2"
  by (auto simp: unchanged_def)

lemma forloop_unchanged:
  assumes "\<And>i t t'. body i t = Ok () t' \<Longrightarrow> unchanged t t'"
  shows "forloop is body s = Ok () s' \<Longrightarrow> unchanged s s'"
proof (induction "is" arbitrary: s)
  case Nil
  then show ?case by simp
next
  case (Cons i "is")
  from Cons.prems obtain s1 where b: "body i s = Ok () s1" and l: "forloop is body s1 = Ok () s'"
    by (auto simp: bind_Ok_iff)
  from assms [OF b] Cons.IH [OF l] show ?case by (rule unchanged_trans)
qed

lemma adjoint_Ok: "adjoint i s = Ok x s' \<Longrightarrow> s' = s"
  by (auto simp: adjoint_def bind_Ok_iff index_Ok_iff)

lemma deref_Ok: "deref i s = Ok x s' \<Longrightarrow> s' = s"
  by (auto simp: deref_def bind_Ok_iff index_Ok_iff)

lemma set_adjoint_unchanged: "set_adjoint i x s = Ok u s' \<Longrightarrow> unchanged s s'"
  by (auto simp: set_adjoint_def bind_Ok_iff index_Ok_iff unchanged_def split: if_splits)

lemma add_adjoint_unchanged: "add_adjoint i x s = Ok u s' \<Longrightarrow> unchanged s s'"
  by (auto simp: add_adjoint_def bind_Ok_iff index_Ok_iff unchanged_def split: if_splits)

lemma restore_unchanged: "restore i j s = Ok u s' \<Longrightarrow> unchanged s s'"
  by (auto simp: restore_def bind_Ok_iff index_Ok_iff unchanged_def)

lemma back_arithmetic_unchanged: "back_arithmetic r s = Ok u s' \<Longrightarrow> unchanged s s'"
  unfolding back_arithmetic_def
  by (auto simp: bind_Ok_iff split: if_splits
      dest!: adjoint_Ok deref_Ok add_adjoint_unchanged intro: unchanged_trans)

lemma back_elemental_unchanged: "back_elemental r s = Ok u s' \<Longrightarrow> unchanged s s'"
  unfolding back_elemental_def
  by (auto simp: bind_Ok_iff index_Ok_iff split: if_splits sum.splits
      dest!: adjoint_Ok deref_Ok
      elim!: forloop_unchanged [rotated] dest: add_adjoint_unchanged)


lemma back_assignment_unchanged: "back_assignment r s = Ok u s' \<Longrightarrow> unchanged s s'"
proof (cases "r_op r = 1")
  case True
  then show "back_assignment r s = Ok u s' \<Longrightarrow> unchanged s s'"
    unfolding back_assignment_def
    by (auto simp: bind_Ok_iff dest!: adjoint_Ok)
      (blast intro: unchanged_trans restore_unchanged set_adjoint_unchanged
        add_adjoint_unchanged)
next
  case False
  assume ok: "back_assignment r s = Ok u s'"
  from ok False obtain s1 s2 s3 where
    1: "forloop [0..<r_op r] (\<lambda>i. restore (r_p r + i) (r_v r + i)) s = Ok () s1" and
    2: "forloop [0..<r_op r] (\<lambda>i s.
          bind (adjoint (r_p r + i) s) (\<lambda>a s.
            Ok () (s\<lparr>values' := (values' s)[r_v r + i := a]\<rparr>))) s1 = Ok () s2" and
    3: "forloop [0..<r_op r] (\<lambda>i. set_adjoint (r_p r + i) 0) s2 = Ok () s3" and
    4: "forloop [0..<r_op r] (\<lambda>i s.
          bind (index (values' s) (r_v r + i) s) (\<lambda>a.
            add_adjoint (r_p r + r_op r + i) a)) s3 = Ok () s'"
    unfolding back_assignment_def by (auto simp: bind_Ok_iff split: if_splits)
  have "unchanged s s1"
    using 1 by (rule forloop_unchanged [rotated]) (rule restore_unchanged)
  moreover have "unchanged s1 s2"
    using 2 by (rule forloop_unchanged [rotated])
      (auto simp: bind_Ok_iff unchanged_def dest!: adjoint_Ok)
  moreover have "unchanged s2 s3"
    using 3 by (rule forloop_unchanged [rotated]) (rule set_adjoint_unchanged)
  moreover have "unchanged s3 s'"
    using 4 by (rule forloop_unchanged [rotated])
      (auto simp: bind_Ok_iff index_Ok_iff dest: add_adjoint_unchanged)
  ultimately show "unchanged s s'" by (blast intro: unchanged_trans)
qed

lemma back_step_unchanged: "back_step r s = Ok u s' \<Longrightarrow> unchanged s s'"
  by (cases "r_typ r")
    (auto dest: back_assignment_unchanged back_arithmetic_unchanged back_elemental_unchanged)

lemma walk_unchanged: "walk bottom ir s = Ok u s' \<Longrightarrow> unchanged s s'"
proof (induction ir arbitrary: s)
  case 0
  then show ?case by (auto split: if_splits)
next
  case (Suc ir)
  show ?case
  proof (cases "Suc ir = bottom")
    case True
    with Suc.prems show ?thesis by simp
  next
    case False
    with Suc.prems obtain s1 where b: "back_step (records s ! ir) s = Ok () s1"
      and w: "walk bottom ir s1 = Ok u s'"
      by (auto simp: bind_Ok_iff index_Ok_iff)
    from back_step_unchanged [OF b] Suc.IH [OF w] show ?thesis by (rule unchanged_trans)
  qed
qed



subsection \<open>The adjoint index\<close>

lemma index_inv_start:
  "index_inv ps cp aj0 av0 cp (Map.empty, aj0, av0)"
  by (auto simp: index_inv_def intro: exI [of _ 0])

lemma index_invI:
  assumes "length aj = length aj0" and "\<exists>k. av = av0 @ replicate k 0"
    and "\<And>a. a \<in> dom m \<longleftrightarrow> (\<exists>j. cp \<le> j \<and> j < i \<and> ps ! j = a)"
    and "\<And>a j. m a = Some j \<Longrightarrow> length av0 \<le> j \<and> j < length av"
    and "\<And>a b j. m a = Some j \<Longrightarrow> m b = Some j \<Longrightarrow> a = b"
    and "\<And>j. cp \<le> j \<and> j < i \<Longrightarrow> m (ps ! j) = Some (aj ! j)"
    and "\<And>j. j < cp \<or> i \<le> j \<Longrightarrow> aj ! j = aj0 ! j"
  shows "index_inv ps cp aj0 av0 i (m, aj, av)"
  unfolding index_inv_def prod.case
  using assms(1,2) assms(3) assms(4) assms(5) assms(6) assms(7) by blast

lemma index_inv_step:
  assumes inv: "index_inv ps cp aj0 av0 i x" and i: "cp \<le> i" "i < length aj0"
  shows "index_inv ps cp aj0 av0 (Suc i) (index_step ps x i)"
proof -
  obtain m aj av where x: "x = (m, aj, av)" by (cases x)
  from inv x have
    len: "length aj = length aj0" and
    av: "\<exists>k. av = av0 @ replicate k 0" and
    dom: "\<And>a. a \<in> dom m \<longleftrightarrow> (\<exists>j. cp \<le> j \<and> j < i \<and> ps ! j = a)" and
    rng: "\<And>a j. m a = Some j \<Longrightarrow> length av0 \<le> j \<and> j < length av" and
    inj: "\<And>a b j. m a = Some j \<Longrightarrow> m b = Some j \<Longrightarrow> a = b" and
    seen: "\<And>j. cp \<le> j \<and> j < i \<Longrightarrow> m (ps ! j) = Some (aj ! j)" and
    rest: "\<And>j. j < cp \<or> i \<le> j \<Longrightarrow> aj ! j = aj0 ! j"
    unfolding index_inv_def by auto
  show ?thesis
  proof (cases "m (ps ! i)")
    case (Some j)
    then have st: "index_step ps x i = (m, aj[i := j], av)" using x by simp
    have d: "a \<in> dom m \<longleftrightarrow> (\<exists>j. cp \<le> j \<and> j < Suc i \<and> ps ! j = a)" for a
    proof
      assume "a \<in> dom m"
      then show "\<exists>j. cp \<le> j \<and> j < Suc i \<and> ps ! j = a" using dom [of a] by auto
    next
      assume "\<exists>j. cp \<le> j \<and> j < Suc i \<and> ps ! j = a"
      then obtain k where k: "cp \<le> k" "k < Suc i" "ps ! k = a" by blast
      show "a \<in> dom m"
      proof (cases "k = i")
        case True
        with k Some show ?thesis by auto
      next
        case False
        with k have "cp \<le> k \<and> k < i \<and> ps ! k = a" by simp
        then show ?thesis using dom [of a] by blast
      qed
    qed
    have s: "m (ps ! k) = Some (aj[i := j] ! k)" if "cp \<le> k \<and> k < Suc i" for k
    proof (cases "k = i")
      case True
      then show ?thesis using Some i len by simp
    next
      case False
      then show ?thesis using that seen [of k] by simp
    qed
    have r: "aj[i := j] ! k = aj0 ! k" if "k < cp \<or> Suc i \<le> k" for k
      using that rest [of k] i by auto
    show ?thesis
      unfolding st
    proof (rule index_invI)
      show "length (aj[i := j]) = length aj0" using len by simp
    qed (use av d rng inj s r in blast)+
  next
    case None
    then have st: "index_step ps x i = (m(ps ! i \<mapsto> length av), aj[i := length av], av @ [0])"
      using x by simp
    let ?m = "m(ps ! i \<mapsto> length av)"
    from av obtain k where k: "av = av0 @ replicate k 0" by blast
    have a': "\<exists>k. av @ [0] = av0 @ replicate k 0"
      using k by (intro exI [of _ "Suc k"]) (simp add: replicate_append_same)
    have d: "a \<in> dom ?m \<longleftrightarrow> (\<exists>j. cp \<le> j \<and> j < Suc i \<and> ps ! j = a)" for a
    proof
      assume "a \<in> dom ?m"
      then have "a = ps ! i \<or> a \<in> dom m" by auto
      then show "\<exists>j. cp \<le> j \<and> j < Suc i \<and> ps ! j = a"
        using dom [of a] i by (auto intro: less_SucI)
    next
      assume "\<exists>j. cp \<le> j \<and> j < Suc i \<and> ps ! j = a"
      then obtain l where l: "cp \<le> l" "l < Suc i" "ps ! l = a" by blast
      show "a \<in> dom ?m"
      proof (cases "l = i")
        case True
        with l show ?thesis by auto
      next
        case False
        with l have "cp \<le> l \<and> l < i \<and> ps ! l = a" by simp
        then have "a \<in> dom m" using dom [of a] by blast
        then show ?thesis by auto
      qed
    qed
    have g: "length av0 \<le> j \<and> j < length (av @ [0])" if "?m a = Some j" for a j
      using that rng [of a j] k by (auto split: if_splits)
    have ij: "a = b" if "?m a = Some j" "?m b = Some j" for a b j
      using that rng [of a j] rng [of b j] inj [of a j b] by (auto split: if_splits)
    have s: "?m (ps ! l) = Some (aj[i := length av] ! l)" if "cp \<le> l \<and> l < Suc i" for l
    proof (cases "l = i")
      case True
      then show ?thesis using i len by simp
    next
      case False
      then have "m (ps ! l) = Some (aj ! l)" using that seen [of l] by simp
      moreover from this None have "ps ! l \<noteq> ps ! i" by auto
      ultimately show ?thesis using False by simp
    qed
    have r: "aj[i := length av] ! l = aj0 ! l" if "l < cp \<or> Suc i \<le> l" for l
      using that rest [of l] i by auto
    show ?thesis
      unfolding st
    proof (rule index_invI)
      show "length (aj[i := length av]) = length aj0" using len by simp
    qed (use a' d g ij s r in blast)+
  qed
qed

lemma index_inv_foldl:
  "cp \<le> i \<Longrightarrow> i \<le> length aj0 \<Longrightarrow>
   index_inv ps cp aj0 av0 i (foldl (index_step ps) (Map.empty, aj0, av0) [cp..<i])"
proof (induction i)
  case 0
  then show ?case using index_inv_start [of ps 0 aj0 av0] by simp
next
  case (Suc i)
  show ?case
  proof (cases "cp = Suc i")
    case True
    then show ?thesis using index_inv_start [of ps cp aj0 av0] by simp
  next
    case False
    with Suc.prems have le: "cp \<le> i" "i < length aj0" by simp_all
    then have "index_inv ps cp aj0 av0 i (foldl (index_step ps) (Map.empty, aj0, av0) [cp..<i])"
      using Suc.IH by simp
    from index_inv_step [OF this le] le show ?thesis by simp
  qed
qed


lemma build_index_Ok:
  assumes "build_index s = Ok u s1"
  shows "c_p (last (cstack s)) \<le> length (places s) \<and>
         (\<exists>m aj0. length (places s) \<le> length aj0 \<and> length (adj s) \<le> length aj0 \<and>
            index_inv (places s) (c_p (last (cstack s))) aj0 (adv s) (length (places s))
              (m, adj s1, adv s1)) \<and>
         s1 = s\<lparr>adj := adj s1, adv := adv s1\<rparr>"
proof -
  let ?aj0 = "if length (adj s) < length (places s)
              then adj s @ replicate (length (places s) - length (adj s)) 0 else adj s"
  let ?cp = "c_p (last (cstack s))"
  from assms have cp: "?cp \<le> length (places s)"
    by (auto simp: build_index_def Let_def split: if_splits)
  have len: "length (places s) \<le> length ?aj0" "length (adj s) \<le> length ?aj0" by auto
  obtain m aj av where f: "foldl (index_step (places s)) (Map.empty, ?aj0, adv s)
      [?cp..<length (places s)] = (m, aj, av)"
    by (cases "foldl (index_step (places s)) (Map.empty, ?aj0, adv s) [?cp..<length (places s)]")
  from assms cp f have s1: "s1 = s\<lparr>adj := aj, adv := av\<rparr>"
    by (auto simp: build_index_def Let_def split: if_splits)
  from index_inv_foldl [OF cp len(1), of "places s" "adv s"] f
  have "index_inv (places s) ?cp ?aj0 (adv s) (length (places s)) (m, aj, av)" by simp
  with s1 cp len show ?thesis by (intro conjI exI [of _ m] exI [of _ ?aj0]) simp_all
qed

lemma build_index_lengths:
  assumes "build_index s = Ok u s1" and "c_p (last (cstack s)) < length (places s)"
  shows "length (adj s) \<le> length (adj s1)" and "length (adv s) < length (adv s1)"
proof -
  from build_index_Ok [OF assms(1)] obtain m aj0 where
    l: "length (adj s) \<le> length aj0" and
    inv: "index_inv (places s) (c_p (last (cstack s))) aj0 (adv s) (length (places s))
              (m, adj s1, adv s1)" by blast
  from inv l show "length (adj s) \<le> length (adj s1)" by (simp add: index_inv_def)
  from inv assms(2) have "m (places s ! c_p (last (cstack s))) = Some (adj s1 ! c_p (last (cstack s)))"
    by (simp add: index_inv_def)
  with inv show "length (adv s) < length (adv s1)"
    unfolding index_inv_def prod.case by (meson le_less_trans)
qed

lemma collect_Ok:
  assumes "\<And>i t x t'. f i t = Ok x t' \<Longrightarrow> t' = t"
  shows "collect is f s = Ok xs s' \<Longrightarrow> s' = s"
proof (induction "is" arbitrary: xs)
  case Nil
  then show ?case by simp
next
  case (Cons i "is")
  from Cons.prems obtain x s1 ys where "f i s = Ok x s1" "collect is f s1 = Ok ys s'"
    by (auto simp: bind_Ok_iff)
  with assms Cons.IH show ?case by blast
qed

lemma partials_Ok: "partials s = Ok g s' \<Longrightarrow> s' = s"
  unfolding partials_def
  by (auto split: if_splits elim!: collect_Ok [rotated] dest: adjoint_Ok)

lemma Pop_Ok:
  assumes "Pop s = Ok u s'"
  shows "cstack s \<noteq> [] \<and>
     c_r (last (cstack s)) \<le> length (records s) \<and> c_p (last (cstack s)) \<le> length (places s) \<and>
     c_v (last (cstack s)) \<le> length (values' s) \<and>
     c_e (last (cstack s)) \<le> length (elementals s) \<and>
     s' = s\<lparr>records := take (c_r (last (cstack s))) (records s),
            places := take (c_p (last (cstack s))) (places s),
            values' := take (c_v (last (cstack s))) (values' s),
            elementals := take (c_e (last (cstack s))) (elementals s),
            cstack := butlast (cstack s)\<rparr>"
  using assms by (auto simp: Pop_def Let_def split: if_splits)

lemma backward_Ok:
  assumes "backward s = Ok u s'"
  shows "\<exists>s1 s2. cstack s \<noteq> [] \<and> build_index s = Ok () s1 \<and> set_adjoint 0 1 s1 = Ok () s2 \<and>
           walk (c_r (last (cstack s))) (length (records s)) s2 = Ok () s'"
proof -
  from assms obtain s1 s2 where ne: "cstack s \<noteq> []" and b: "build_index s = Ok () s1"
    and a: "set_adjoint 0 1 s1 = Ok () s2"
    and w: "walk (c_r (last (cstack s2))) (length (records s2)) s2 = Ok () s'"
    by (auto simp: backward_def bind_Ok_iff split: if_splits)
  from build_index_Ok [OF b] have "cstack s1 = cstack s" "records s1 = records s"
    by (metis (no_types, lifting) state.select_convs state.surjective state.update_convs)+
  with set_adjoint_unchanged [OF a] have "cstack s2 = cstack s" "records s2 = records s"
    by (simp_all add: unchanged_def)
  with ne b a w show ?thesis by auto
qed


lemma Setup_state:
  "Setup x s = s\<lparr>cstack := cstack s @
        [\<lparr>c_n = len x, c_r = length (records s), c_p = length (places s),
          c_v = length (values' s), c_e = length (elementals s)\<rparr>],
      values' := values' s @ [0],
      heap := (heap s)(Val (length (values' s)) := 0),
      places := places s @ Val (length (values' s)) # elems x\<rparr>"
  by (simp add: Setup_def push_def Value_def register_def Let_def)

lemma Gradient_Ok:
  assumes "Gradient s = Ok g s'"
  shows "\<exists>s1 s2 s3. cstack s \<noteq> [] \<and> build_index s = Ok () s1 \<and> set_adjoint 0 1 s1 = Ok () s2 \<and>
           walk (c_r (last (cstack s))) (length (records s)) s2 = Ok () s3 \<and>
           partials s3 = Ok g s3 \<and> Pop s3 = Ok () s'"
proof -
  from assms obtain s3 s4 where b: "backward s = Ok () s3" and p: "partials s3 = Ok g s4"
    and q: "Pop s4 = Ok () s'"
    by (auto simp: Gradient_def bind_Ok_iff)
  from partials_Ok [OF p] p q backward_Ok [OF b] show ?thesis by auto
qed


subsection \<open>Writing a list of cells in order\<close>

lemma assign_run_last:
  "i < k \<Longrightarrow> \<forall>j. i < j \<and> j < k \<longrightarrow> p ! j \<noteq> p ! i \<Longrightarrow>
   foldl (\<lambda>h' i. h'(p ! i := f i)) h [0..<k] (p ! i) = f i"
proof (induction k)
  case 0
  then show ?case by simp
next
  case (Suc k)
  show ?case
  proof (cases "i = k")
    case True
    then show ?thesis by simp
  next
    case False
    with Suc.prems have "i < k" and "p ! k \<noteq> p ! i" by auto
    moreover have "\<forall>j. i < j \<and> j < k \<longrightarrow> p ! j \<noteq> p ! i" using Suc.prems by auto
    ultimately show ?thesis using Suc.IH by simp
  qed
qed

lemma assign_run_other:
  "\<forall>j<k. p ! j \<noteq> a \<Longrightarrow> foldl (\<lambda>h' i. h'(p ! i := f i)) h [0..<k] a = h a"
  by (induction k) auto

section \<open>The backward loop computes the adjoints of the cells\<close>

subsection \<open>Reading and writing adjoints through the index\<close>

lemma Rel_heap [simp]: "Rel cp (s\<lparr>heap := h\<rparr>) m = Rel cp s m"
  by (simp add: Rel_def)

lemma Rel_values [simp]: "Rel cp (s\<lparr>values' := vs\<rparr>) m = Rel cp s m"
  by (simp add: Rel_def)









lemma bind_Ok_right [simp]: "bind m Ok = m"
  by (cases m) simp_all






subsection \<open>One record\<close>









lemma scratch_length [simp]:
  "length (foldl (\<lambda>vs i. vs[v + i := f i]) vs0 [0..<k]) = length vs0"
  by (induction k) simp_all








subsection \<open>The whole loop\<close>





subsection \<open>The index, the seed and the partials\<close>











section \<open>The recorder writes the meanings of the calls\<close>

subsection \<open>Records keep their meaning when the logs grow\<close>








subsection \<open>Names and their addresses\<close>









subsection \<open>One call that appends to the logs\<close>



subsection \<open>Each call of the recorder, on addresses and on names\<close>



lemma sym_upd_eq:
  "length env = s_k y \<Longrightarrow>
   y\<lparr>s_k := length (env @ [a]), s_heap := hs, s_log := l\<rparr>
   = y\<lparr>s_k := Suc (s_k y), s_heap := hs, s_log := l\<rparr>"
  by simp






lemma window_append: "map (\<lambda>i. (xs @ ys) ! (length xs + i)) [0..<length ys] = ys"
  by (rule nth_equalityI) simp_all




subsection \<open>Renaming cells\<close>






subsection \<open>Assignments\<close>








subsection \<open>Forward sequences, on addresses and on names\<close>







subsection \<open>The backward pass does not depend on the names of the cells\<close>






subsection \<open>The gradient of a forward sequence\<close>




subsection \<open>Forward sequences on names: composition\<close>










subsection \<open>The backward pass undoes the assignments\<close>










subsection \<open>An assignment of a cell to itself\<close>



subsection \<open>The one-target parallel assignment\<close>




subsection \<open>The cells after the backward pass\<close>





section \<open>Evaluating the recorder and the backward pass\<close>

lemmas forward_defs = ddx_def Setup_def push_def Value_def register_def Arithmetic_def
  Return_def Assignment_def

lemmas backward_defs = Gradient_def backward_def build_index_def set_adjoint_def
  add_adjoint_def adjoint_def deref_def restore_def index_def partials_def Pop_def
  back_arithmetic_def back_assignment_def

subsection \<open>Aliased operands\<close>




subsection \<open>The seed of the backward pass\<close>

text \<open>
  C2. \<^verbatim>\<open>backward\<close> seeds \<^verbatim>\<open>adv[adj[0]]\<close>, the adjoint of place 0 of the whole tape, not
  \<^verbatim>\<open>adv[adj[c.p]]\<close>. After one complete pass on the fresh tape, open a frame with
  \<^verbatim>\<open>Setup\<close> and, inside it, a second one on the cell \<open>Ext 1\<close> (value 5); record
  \<^verbatim>\<open>Arithmetic(OpMul, y, y)\<close> and \<^verbatim>\<open>Return\<close> its result. The inner frame starts at place 2.
  After \<^verbatim>\<open>backward\<close> the adjoint of the inner result slot is 0, the 1 went to the stale slot
  of place 0, and \<^verbatim>\<open>Gradient\<close> returns \<open>[0]\<close> where the derivative is 10.
\<close>

theorem nested_frame_seed_failing_input:
  "\<exists>g0 s1. ddx (Slice (Ext 0) 1) [] (init Map.empty (\<lambda>_. 5)) = Inr (Ok g0 s1) \<and>
     (\<exists>env s2. run [CArithmetic OpMul [PExt 1, PExt 1], CReturn (PRes 0)] []
                 (Setup (Slice (Ext 1) 1) (Setup (Slice (Ext 0) 1) s1)) = Inr (Ok env s2) \<and>
        c_p (last (cstack s2)) = 2 \<and>
        (\<exists>s3. backward s2 = Ok () s3 \<and>
              adv s3 ! (adj s3 ! c_p (last (cstack s3))) = 0 \<and> adv s3 ! (adj s3 ! 0) = 1) \<and>
        (\<exists>s4. Gradient s2 = Ok [0] s4))"
  by (simp add: init_def forward_defs backward_defs Let_def upt_rec nth_append numeral_eq_Suc)

subsection \<open>Built-in gradients\<close>

text \<open>
  C4. After \<^verbatim>\<open>init\<close> the registry maps each of the seven functions of package \<^verbatim>\<open>math\<close>
  to a gradient that computes, for every value \<open>v\<close> and every argument vector:
  sqrt \<open>[0.5 / v]\<close>, exp \<open>[v]\<close>, log \<open>[1 / a[0]]\<close>, pow \<open>[v * log(a[0])]\<close> (one entry, for the
  exponent), sin \<open>[cos(a[0])]\<close>, cos \<open>[-sin(a[0])]\<close>, tan \<open>[1 + v\<^sup>2]\<close>. The four gradients
  that read \<open>a[0]\<close> are stated on the argument vectors \<open>a0 # a\<close> that have one.
\<close>

theorem builtin_gradients:
  "ElementalGradient math_Sqrt (init_elementals s) = Some sqrt_grad \<and>
     sqrt_grad v a = Inr [0.5 / v] \<and>
   ElementalGradient math_Exp (init_elementals s) = Some exp_grad \<and>
     exp_grad v a = Inr [v] \<and>
   ElementalGradient math_Log (init_elementals s) = Some log_grad \<and>
     log_grad v (a0 # a) = Inr [1 / (a0 # a) ! 0] \<and>
   ElementalGradient math_Pow (init_elementals s) = Some pow_grad \<and>
     pow_grad v (a0 # a) = Inr [v * ln ((a0 # a) ! 0)] \<and>
   ElementalGradient math_Sin (init_elementals s) = Some sin_grad \<and>
     sin_grad v (a0 # a) = Inr [cos ((a0 # a) ! 0)] \<and>
   ElementalGradient math_Cos (init_elementals s) = Some cos_grad \<and>
     cos_grad v (a0 # a) = Inr [- sin ((a0 # a) ! 0)] \<and>
   ElementalGradient math_Tan (init_elementals s) = Some tan_grad \<and>
     tan_grad v a = Inr [1 + v\<^sup>2]"
  by (simp add: ElementalGradient_def init_elementals_def RegisterElemental_def
      math_Sqrt_def math_Exp_def math_Log_def math_Pow_def math_Sin_def math_Cos_def
      math_Tan_def sqrt_grad_def exp_grad_def log_grad_def pow_grad_def sin_grad_def
      cos_grad_def tan_grad_def power2_eq_square)

subsection \<open>An unregistered elemental\<close>

text \<open>
  C8. For every function \<open>f\<close> with no gradient in the registry, \<^verbatim>\<open>Elemental(f, px...)\<close>
  panics with "not an elemental". The state it leaves is the one right after
  \<^verbatim>\<open>Value(0.)\<close>: no record, no elemental entry and no place has been appended, and the
  value store has grown by the result cell.
\<close>

theorem Elemental_unregistered:
  "ElementalGradient f s = None \<Longrightarrow>
   Elemental f px s = Panic NotAnElemental (snd (Value 0 s)) \<and>
   records (snd (Value 0 s)) = records s \<and>
   elementals (snd (Value 0 s)) = elementals s \<and>
   places (snd (Value 0 s)) = places s \<and>
   values' (snd (Value 0 s)) = values' s @ [0]"
  by (simp add: Elemental_def Value_def ElementalGradient_def)

theorem Elemental_unregistered_witness:
  "ElementalGradient (Func 7 (Func1 (\<lambda>x. x))) (init_elementals (init Map.empty (\<lambda>_. 0)))
     = None \<and>
   Elemental (Func 7 (Func1 (\<lambda>x. x))) [Ext 0] (init_elementals (init Map.empty (\<lambda>_. 0))) =
     Panic NotAnElemental (snd (Value 0 (init_elementals (init Map.empty (\<lambda>_. 0)))))"
  using Elemental_unregistered [of "Func 7 (Func1 (\<lambda>x. x))"
      "init_elementals (init Map.empty (\<lambda>_. 0))" "[Ext 0]"]
  by (simp add: ElementalGradient_def init_elementals_def RegisterElemental_def
      math_Sqrt_def math_Exp_def math_Log_def math_Pow_def math_Sin_def math_Cos_def
      math_Tan_def)

subsection \<open>Parallel assignment\<close>

lemma ParallelAssignment_heap:
  assumes "length ts = length ss"
  shows "heap (ParallelAssignment (ts @ ss) s) =
         foldl (\<lambda>h' i. h'(ts ! i := heap s (ss ! i))) (heap s) [0..<length ts]"
proof -
  let ?vs = "values' s @ map (heap s) ts @ map (heap s) ss"
  have "foldl (\<lambda>h' i. h'(ts ! i := ?vs ! (length ?vs - length ts + i))) (heap s) [0..<length ts]
      = foldl (\<lambda>h' i. h'(ts ! i := heap s (ss ! i))) (heap s) [0..<length ts]"
    using assms by (intro foldl_cong) (simp_all add: nth_append)
  then show ?thesis
    using assms by (simp add: ParallelAssignment_def Let_def assign_run_def)
qed

text \<open>
  C6 (as amended). For every call \<^verbatim>\<open>ParallelAssignment\<close> with \<open>k\<close> targets \<open>ts\<close> followed by
  \<open>k\<close> sources \<open>ss\<close>: exactly one record is appended, of type assignment and arity \<open>k\<close>;
  its place window holds the targets, then the sources; the \<open>k\<close> values at its \<open>v\<close> index
  are the values the targets had before; every target that does not occur again
  later in the target list ends holding the value its source had before the call;
  and no cell other than a target changes.
\<close>

theorem ParallelAssignment_effect:
  "length ts = length ss \<Longrightarrow>
   records (ParallelAssignment (ts @ ss) s) =
     records s @ [\<lparr>r_typ = typAssignment, r_op = length ts, r_p = length (places s),
                   r_v = length (values' s)\<rparr>] \<and>
   places (ParallelAssignment (ts @ ss) s) = places s @ ts @ ss \<and>
   take (length ts) (drop (length (values' s)) (values' (ParallelAssignment (ts @ ss) s))) =
     map (heap s) ts \<and>
   (\<forall>i<length ts. (\<forall>j. i < j \<and> j < length ts \<longrightarrow> ts ! j \<noteq> ts ! i) \<longrightarrow>
        heap (ParallelAssignment (ts @ ss) s) (ts ! i) = heap s (ss ! i)) \<and>
   (\<forall>a. a \<notin> set ts \<longrightarrow> heap (ParallelAssignment (ts @ ss) s) a = heap s a)"
proof -
  assume eq: "length ts = length ss"
  note h = ParallelAssignment_heap [OF eq, of s]
  have 1: "heap (ParallelAssignment (ts @ ss) s) (ts ! i) = heap s (ss ! i)"
    if "i < length ts" "\<forall>j. i < j \<and> j < length ts \<longrightarrow> ts ! j \<noteq> ts ! i" for i
    using assign_run_last [OF that, of "\<lambda>i. heap s (ss ! i)" "heap s"] h by simp
  have 2: "heap (ParallelAssignment (ts @ ss) s) a = heap s a" if "a \<notin> set ts" for a
  proof -
    have "\<forall>j<length ts. ts ! j \<noteq> a" using that by auto
    from assign_run_other [OF this, of "\<lambda>i. heap s (ss ! i)" "heap s"] h show ?thesis by simp
  qed
  show ?thesis using eq 1 2 by (simp add: ParallelAssignment_def Let_def)
qed

theorem ParallelAssignment_effect_witness:
  "length [Ext 0, Ext 1] = length [Ext 1, Ext 0] \<and>
   heap (ParallelAssignment ([Ext 0, Ext 1] @ [Ext 1, Ext 0])
          (init Map.empty (\<lambda>a. case a of Ext n \<Rightarrow> real n | Val i \<Rightarrow> 0))) (Ext 0) = 1 \<and>
   heap (ParallelAssignment ([Ext 0, Ext 1] @ [Ext 1, Ext 0])
          (init Map.empty (\<lambda>a. case a of Ext n \<Rightarrow> real n | Val i \<Rightarrow> 0))) (Ext 1) = 0"
proof -
  let ?s = "init Map.empty (\<lambda>a. case a of Ext n \<Rightarrow> real n | Val i \<Rightarrow> 0)"
  let ?ts = "[Ext 0, Ext 1]" and ?ss = "[Ext 1, Ext 0]"
  have l: "length ?ts = length ?ss" by simp
  note a = ParallelAssignment_effect [OF l, of ?s, THEN conjunct2, THEN conjunct2,
      THEN conjunct2, THEN conjunct1, rule_format]
  have h0: "?ts ! j \<noteq> ?ts ! 0" if "0 < j \<and> j < length ?ts" for j
    using that by (cases j) auto
  have h1: "?ts ! j \<noteq> ?ts ! 1" if "1 < j \<and> j < length ?ts" for j
    using that by auto
  have "heap (ParallelAssignment (?ts @ ?ss) ?s) (?ts ! 0) = heap ?s (?ss ! 0)"
    by (rule a) (use h0 in auto)
  moreover have "heap (ParallelAssignment (?ts @ ?ss) ?s) (?ts ! 1) = heap ?s (?ss ! 1)"
    by (rule a) (use h1 in auto)
  ultimately show ?thesis by (simp add: init_def)
qed

text \<open>
  A target listed twice is written twice, in order: with targets \<open>[c, c]\<close> and sources
  holding 1 and 2, the cell \<open>c\<close> ends at 2, so target 0 does not hold the value of source 0.
\<close>

theorem ParallelAssignment_repeated_target_counterexample:
  "heap (ParallelAssignment ([Ext 0, Ext 0] @ [Ext 1, Ext 2])
          (init Map.empty (\<lambda>a. case a of Ext n \<Rightarrow> real n | Val i \<Rightarrow> 0))) ([Ext 0, Ext 0] ! 0)
   \<noteq> heap (init Map.empty (\<lambda>a. case a of Ext n \<Rightarrow> real n | Val i \<Rightarrow> 0)) ([Ext 1, Ext 2] ! 0)"
  using ParallelAssignment_heap [of "[Ext 0, Ext 0]" "[Ext 1, Ext 2]"
      "init Map.empty (\<lambda>a. case a of Ext n \<Rightarrow> real n | Val i \<Rightarrow> 0)"]
  by (simp add: init_def)

subsection \<open>Call markers\<close>

lemma appended_clean_ParallelAssignment: "appended_clean s (ParallelAssignment ppx s)"
  by (simp add: appended_clean_def ParallelAssignment_def Let_def)






subsection \<open>Lengths after the frame is popped\<close>

text \<open>
  C3 (as amended). After \<^verbatim>\<open>Setup(x)\<close>, a forward sequence and \<^verbatim>\<open>Gradient()\<close>, the arrays
  of records, places, values and elemental entries and the counter stack have exactly
  the lengths they had before \<^verbatim>\<open>Setup\<close>; the adjoint index is no shorter than before and
  the adjoint buffer is longer: \<^verbatim>\<open>Pop\<close> truncates neither. After \<^verbatim>\<open>Setup(x)\<close>, a forward
  sequence and \<^verbatim>\<open>Pop()\<close>, the same five lengths are restored and the adjoint index and
  buffer are as they were, since nothing wrote them.
\<close>

theorem pop_restores_lengths:
  "(ddx x f s = Inr (Ok g s') \<longrightarrow>
      length (records s') = length (records s) \<and> length (places s') = length (places s) \<and>
      length (values' s') = length (values' s) \<and>
      length (elementals s') = length (elementals s) \<and>
      length (cstack s') = length (cstack s) \<and>
      length (adj s) \<le> length (adj s') \<and> length (adv s) < length (adv s')) \<and>
   (discard x f s = Inr (Ok u s') \<longrightarrow>
      length (records s') = length (records s) \<and> length (places s') = length (places s) \<and>
      length (values' s') = length (values' s) \<and>
      length (elementals s') = length (elementals s) \<and>
      length (cstack s') = length (cstack s) \<and>
      adj s' = adj s \<and> adv s' = adv s)"
proof -
  let ?c = "\<lparr>c_n = len x, c_r = length (records s), c_p = length (places s),
          c_v = length (values' s), c_e = length (elementals s)\<rparr>"
  have su: "cstack (Setup x s) = cstack s @ [?c]" "adj (Setup x s) = adj s"
    "adv (Setup x s) = adv s" "length (places s) < length (places (Setup x s))"
    by (simp_all add: Setup_state)
  show ?thesis
  proof (rule conjI; rule impI)
    assume "ddx x f s = Inr (Ok g s')"
    then obtain env s2 where r: "run f [] (Setup x s) = Inr (Ok env s2)" and g: "Gradient s2 = Ok g s'"
      by (auto simp: ddx_def split: sum.splits result.splits)
    from run_extends [OF r] su have e: "cstack s2 = cstack s @ [?c]" "adj s2 = adj s"
      "adv s2 = adv s" "length (places s) < length (places s2)"
      by (auto simp: extends_def)
    from Gradient_Ok [OF g] obtain s2a s2b s3 where
      b: "build_index s2 = Ok () s2a" and a: "set_adjoint 0 1 s2a = Ok () s2b" and
      w: "walk (c_r (last (cstack s2))) (length (records s2)) s2b = Ok () s3" and
      p: "Pop s3 = Ok () s'" by blast
    from build_index_Ok [OF b] have s2a: "s2a = s2\<lparr>adj := adj s2a, adv := adv s2a\<rparr>" by simp
    have cp: "c_p (last (cstack s2)) < length (places s2)" using e by simp
    note bl = build_index_lengths [OF b cp]
    have u: "unchanged s2a s3"
      using set_adjoint_unchanged [OF a] walk_unchanged [OF w] by (rule unchanged_trans)
    have c3: "cstack s3 = cstack s @ [?c]"
      using u s2a e(1) unfolding unchanged_def
      by (metis (no_types, lifting) state.select_convs(5) state.surjective state.update_convs(6,7))
    have l3: "length (adj s) \<le> length (adj s3)" "length (adv s) < length (adv s3)"
      using u bl e by (simp_all add: unchanged_def)
    from Pop_Ok [OF p] c3 l3
    show "length (records s') = length (records s) \<and> length (places s') = length (places s) \<and>
      length (values' s') = length (values' s) \<and>
      length (elementals s') = length (elementals s) \<and>
      length (cstack s') = length (cstack s) \<and>
      length (adj s) \<le> length (adj s') \<and> length (adv s) < length (adv s')"
      by (elim conjE) (simp add: min_def)
  next
    assume "discard x f s = Inr (Ok u s')"
    then obtain env s2 where r: "run f [] (Setup x s) = Inr (Ok env s2)" and p: "Pop s2 = Ok () s'"
      by (auto simp: discard_def split: sum.splits result.splits)
    from run_extends [OF r] su have e: "cstack s2 = cstack s @ [?c]" "adj s2 = adj s"
      "adv s2 = adv s"
      by (auto simp: extends_def)
    from Pop_Ok [OF p] e
    show "length (records s') = length (records s) \<and> length (places s') = length (places s) \<and>
      length (values' s') = length (values' s) \<and>
      length (elementals s') = length (elementals s) \<and>
      length (cstack s') = length (cstack s) \<and>
      adj s' = adj s \<and> adv s' = adv s"
      by (elim conjE) (simp add: min_def)
  qed
qed


theorem pop_restores_lengths_witness:
  "ddx (Slice (Ext 0) 1) [] (init Map.empty (\<lambda>_. 0)) =
     Inr (Ok [0] ((init Map.empty (\<lambda>_. 0))\<lparr>adj := [0, 1], adv := [1, 0]\<rparr>)) \<and>
   length (adj (init Map.empty (\<lambda>_. 0)))
     \<le> length (adj ((init Map.empty (\<lambda>_. 0))\<lparr>adj := [0, 1], adv := [1, 0]\<rparr>)) \<and>
   length (adv (init Map.empty (\<lambda>_. 0)))
     < length (adv ((init Map.empty (\<lambda>_. 0))\<lparr>adj := [0, 1], adv := [1, 0]\<rparr>)) \<and>
   discard (Slice (Ext 0) 1) [] (init Map.empty (\<lambda>_. 0)) = Inr (Ok () (init Map.empty (\<lambda>_. 0))) \<and>
   length (places (init Map.empty (\<lambda>_. 0))) = length (places (init Map.empty (\<lambda>_. 0)))"
proof -
  let ?s = "init Map.empty (\<lambda>_. 0)"
  let ?s' = "?s\<lparr>adj := [0, 1], adv := [1, 0]\<rparr>"
  have d: "ddx (Slice (Ext 0) 1) [] ?s = Inr (Ok [0] ?s')"
    by (simp add: init_def forward_defs backward_defs Let_def upt_rec nth_append numeral_eq_Suc
        fun_eq_iff)
  have p: "discard (Slice (Ext 0) 1) [] ?s = Inr (Ok () ?s)"
    by (simp add: init_def discard_def forward_defs backward_defs Let_def fun_eq_iff)
  from pop_restores_lengths [of "Slice (Ext 0) 1" "[]" ?s "[0]" ?s' "()"] d p
  show ?thesis by simp
qed

text \<open>
  On the fresh tape, whose adjoint index and buffer are empty, \<^verbatim>\<open>Setup\<close> on one
  parameter followed by \<^verbatim>\<open>Gradient\<close> leaves both with two entries.
\<close>

theorem adjoint_buffer_not_truncated_counterexample:
  "map_option (\<lambda>s. (length (adj s), length (adv s)))
     (final (ddx (Slice (Ext 0) 1) [] (init Map.empty (\<lambda>_. 0)))) = Some (2, 2) \<and>
   (length (adj (init Map.empty (\<lambda>_. 0))), length (adv (init Map.empty (\<lambda>_. 0)))) = (0, 0)"
  by (simp add: init_def forward_defs backward_defs Let_def upt_rec nth_append numeral_eq_Suc)



section \<open>Assignments and the gradient\<close>

subsection \<open>Assigning a cell to itself\<close>



subsection \<open>The single-target assignment\<close>



subsection \<open>The cells after the gradient\<close>



end
